theory Spec2Isabelle
  imports
    Main
    "HOL-Library.Word"
    "HOL-Library.AList"
    "HOL-Library.List_Lexorder"
    "HOL-Library.Char_ord"
begin

unbundle bit_operations_syntax

section \<open>A shallow embedding of go-todo-cli (src/main.go)\<close>

text \<open>
  The program keeps one file per todo in the directory \<open>todos\<close> below the working
  directory, and talks to the user over standard input and output. The embedding passes
  the part of the outside world the program touches as an explicit state (\<open>world\<close>):
  the entries of the \<open>todos\<close> directory, the lines still waiting on standard input, what
  has been printed, and the values the random generator will draw. A Go target with
  64-bit \<open>int\<close> and \<open>uint\<close> is assumed.
\<close>

subsection \<open>Data\<close>

type_synonym byte = "8 word"

text \<open>\<open>type TODOId uint\<close> (line 16).\<close>

type_synonym TODOId = "64 word"

text \<open>\<open>type Todo struct\<close> (lines 18-22). The field \<open>id\<close> is called \<open>todo_id\<close> here.\<close>

record Todo =
  todo_id :: TODOId
  completed :: bool
  title :: string

text \<open>
  Go's \<open>error\<close> values that occur: the two \<open>*strconv.NumError\<close> kinds (with the input
  they quote), the errors of the file system calls, and \<open>io.EOF\<close>.
\<close>

datatype error =
    ErrSyntax string
  | ErrRange string
  | ENOENT
  | EACCES
  | EISDIR
  | ENOTEMPTY
  | EOF

text \<open>
  A path is the list of its components below the working directory. An entry of the
  \<open>todos\<close> directory is a regular file (which may refuse to be opened, as with missing
  permissions) or a sub-directory (empty or not).
\<close>

type_synonym path = "string list"

datatype node =
    RegFile (openable: bool) (content: "byte list")
  | SubDir (empty_dir: bool)

text \<open>What \<open>fmt.Print*\<close> wrote: literal text, or a value printed with \<open>%+v\<close> / \<open>%s\<close>.\<close>

datatype out = Txt string | ErrV error | PathV path

record world =
  getwd_ok :: bool
  todos_dir :: "(string \<times> node) list option"
  stdin :: "string list"
  stdout :: "out list"
  rand_src :: "int list"

text \<open>
  A call either returns (\<open>Ret\<close>) or ends the process with an exit status (\<open>Halt\<close>:
  \<open>log.Fatal\<close> exits with 1, \<open>os.Exit(0)\<close> with 0; what \<open>log.Fatal\<close> writes to standard
  error is not part of the state). A call that may loop forever has an \<open>option\<close> result,
  \<open>None\<close> standing for "never returns".
\<close>

datatype 'a outcome = Ret 'a world | Halt nat world

subsection \<open>Library functions the program calls\<close>

subsubsection \<open>strconv\<close>

definition isDigit :: "char \<Rightarrow> bool" where
  "isDigit c = (48 \<le> (of_char c :: int) \<and> (of_char c :: int) \<le> 57)"

definition digitVal :: "char \<Rightarrow> int" where
  "digitVal c = of_char c - 48"

text \<open>
  The digit loop of \<open>strconv.ParseUint(s, 10, 64)\<close>; \<open>s0\<close> is the text the error quotes.
  The running value is an unbounded integer, with the overflow test of the \<open>uint64\<close>
  written out.
\<close>

fun ParseUint_loop :: "string \<Rightarrow> string \<Rightarrow> int \<Rightarrow> error + int" where
  "ParseUint_loop s0 [] n = Inr n"
| "ParseUint_loop s0 (c # cs) n =
     (if \<not> isDigit c then Inl (ErrSyntax s0)
      else let n1 = n * 10 + digitVal c
           in if n1 \<ge> 2 ^ 64 then Inl (ErrRange s0) else ParseUint_loop s0 cs n1)"

text \<open>
  \<open>strconv.Atoi\<close>: an optional sign, then one or more decimal digits, and the value must
  fit a 64-bit signed \<open>int\<close>.
\<close>

definition strconv_Atoi :: "string \<Rightarrow> error + int" where
  "strconv_Atoi s0 =
     (case s0 of
        [] \<Rightarrow> Inl (ErrSyntax s0)
      | c # cs \<Rightarrow>
          (let neg = (c = CHR ''-'');
               s = (if c = CHR ''+'' \<or> c = CHR ''-'' then cs else s0)
           in if s = [] then Inl (ErrSyntax s0)
              else (case ParseUint_loop s0 s 0 of
                      Inl err \<Rightarrow> Inl err
                    | Inr un \<Rightarrow>
                        if \<not> neg \<and> un \<ge> 2 ^ 63 then Inl (ErrRange s0)
                        else if neg \<and> un > 2 ^ 63 then Inl (ErrRange s0)
                        else Inr (if neg then - un else un))))"

definition digitChar :: "int \<Rightarrow> char" where
  "digitChar d = char_of (48 + d)"

text \<open>\<open>strconv.FormatUint(n, 10)\<close>, also what \<open>%d\<close> prints for a value that is not negative.\<close>

function FormatUint :: "int \<Rightarrow> string" where
  "FormatUint n =
     (if n < 10 then [digitChar n] else FormatUint (n div 10) @ [digitChar (n mod 10)])"
  by pat_completeness auto
termination
  by (relation "measure nat") auto

declare FormatUint.simps [simp del]

definition strconv_Itoa :: "int \<Rightarrow> string" where
  "strconv_Itoa i = (if i < 0 then CHR ''-'' # FormatUint (- i) else FormatUint i)"

subsubsection \<open>regexp, strings, path, math/rand\<close>

text \<open>\<open>regexp.MatchString("^([0-9]+)$", s)\<close>: the whole text is one or more digits.\<close>

definition regexp_MatchString_digits :: "string \<Rightarrow> bool" where
  "regexp_MatchString_digits s = (s \<noteq> [] \<and> list_all isDigit s)"

definition strings_Trim :: "string \<Rightarrow> string \<Rightarrow> string" where
  "strings_Trim s cutset =
     rev (dropWhile (\<lambda>c. c \<in> set cutset) (rev (dropWhile (\<lambda>c. c \<in> set cutset) s)))"

definition path_Join :: "path \<Rightarrow> string \<Rightarrow> path" where
  "path_Join dir name = dir @ [name]"

text \<open>
  \<open>rand.Intn(n)\<close> reduces the generator's next raw value into \<open>[0, n)\<close>. \<open>rand_src\<close>
  lists the raw values still to come; past its end the raw value reads as 0.
\<close>

definition rand_Intn :: "int \<Rightarrow> world \<Rightarrow> int \<times> world" where
  "rand_Intn n w =
     (case rand_src w of
        [] \<Rightarrow> (0, w)
      | r # rs \<Rightarrow> (r mod n, w\<lparr>rand_src := rs\<rparr>))"

subsubsection \<open>fmt, bufio\<close>

definition fmt_Print :: "out list \<Rightarrow> world \<Rightarrow> world" where
  "fmt_Print xs w = w\<lparr>stdout := stdout w @ xs\<rparr>"

text \<open>
  Standard input is the list of lines the user enters, each read by one call. A line
  answered to \<open>fmt.Scanln(&s)\<close> is a single token without white space; at the end of the
  input \<open>Scanln\<close> fails and leaves \<open>s\<close> empty (the program ignores that error).
\<close>

definition fmt_Scanln :: "world \<Rightarrow> string \<times> world" where
  "fmt_Scanln w =
     (case stdin w of
        [] \<Rightarrow> ('''', w)
      | l # ls \<Rightarrow> (l, w\<lparr>stdin := ls\<rparr>))"

text \<open>\<open>bufio.NewReader(os.Stdin).ReadString('\n')\<close>: the next line with its newline.\<close>

definition bufio_ReadString_nl :: "world \<Rightarrow> string \<times> world" where
  "bufio_ReadString_nl w =
     (case stdin w of
        [] \<Rightarrow> ('''', w)
      | l # ls \<Rightarrow> (l @ ''\<newline>'', w\<lparr>stdin := ls\<rparr>))"

subsubsection \<open>os\<close>

definition os_Getwd :: "world \<Rightarrow> error + path" where
  "os_Getwd w = (if getwd_ok w then Inr [] else Inl ENOENT)"

text \<open>Only paths \<open>todos/<name>\<close> denote entries in this model.\<close>

definition fs_lookup :: "world \<Rightarrow> path \<Rightarrow> node option" where
  "fs_lookup w p =
     (case p of
        [d, name] \<Rightarrow>
          (if d = ''todos''
           then (case todos_dir w of None \<Rightarrow> None | Some es \<Rightarrow> map_of es name)
           else None)
      | _ \<Rightarrow> None)"

definition fs_put :: "path \<Rightarrow> node \<Rightarrow> world \<Rightarrow> world" where
  "fs_put p nd w =
     (case p of
        [d, name] \<Rightarrow> w\<lparr>todos_dir := map_option (AList.update name nd) (todos_dir w)\<rparr>
      | _ \<Rightarrow> w)"

definition fs_del :: "path \<Rightarrow> world \<Rightarrow> world" where
  "fs_del p w =
     (case p of
        [d, name] \<Rightarrow> w\<lparr>todos_dir := map_option (AList.delete name) (todos_dir w)\<rparr>
      | _ \<Rightarrow> w)"

definition parent_exists :: "world \<Rightarrow> path \<Rightarrow> bool" where
  "parent_exists w p =
     (case p of [d, name] \<Rightarrow> d = ''todos'' \<and> todos_dir w \<noteq> None | _ \<Rightarrow> False)"

text \<open>
  An open file: a regular file's bytes with the read offset, or a directory (which
  \<open>os.Open\<close> opens just as well).
\<close>

datatype os_File = FileH (data: "byte list") (offset: nat) | DirH

definition os_Open :: "path \<Rightarrow> world \<Rightarrow> error + os_File" where
  "os_Open p w =
     (case fs_lookup w p of
        None \<Rightarrow> Inl ENOENT
      | Some (RegFile ok bs) \<Rightarrow> if ok then Inr (FileH bs 0) else Inl EACCES
      | Some (SubDir e) \<Rightarrow> Inr DirH)"

text \<open>
  \<open>file.Read(buf)\<close> returns \<open>(n, err)\<close> and has filled \<open>buf[:n]\<close>: as many bytes as are
  left and fit, \<open>(0, io.EOF)\<close> at the end of a regular file, and \<open>(0, EISDIR)\<close> on a
  directory.
\<close>

definition file_Read :: "byte list \<Rightarrow> os_File \<Rightarrow> (nat \<times> error option \<times> byte list) \<times> os_File" where
  "file_Read buf f =
     (case f of
        DirH \<Rightarrow> ((0, Some EISDIR, buf), f)
      | FileH bs off \<Rightarrow>
          (let chunk = take (length buf) (drop off bs); n = length chunk
           in if n = 0 \<and> buf \<noteq> [] then ((0, Some EOF, buf), f)
              else ((n, None, chunk @ drop n buf), FileH bs (off + n))))"

text \<open>\<open>os.Create\<close> makes the file or truncates it; the file is then written through its path.\<close>

definition os_Create :: "path \<Rightarrow> world \<Rightarrow> error + world" where
  "os_Create p w =
     (if \<not> parent_exists w p then Inl ENOENT
      else (case fs_lookup w p of
              None \<Rightarrow> Inr (fs_put p (RegFile True []) w)
            | Some (RegFile ok bs) \<Rightarrow>
                if ok then Inr (fs_put p (RegFile True []) w) else Inl EACCES
            | Some (SubDir e) \<Rightarrow> Inl EISDIR))"

definition file_Write :: "path \<Rightarrow> byte list \<Rightarrow> world \<Rightarrow> world" where
  "file_Write p bs w =
     (case fs_lookup w p of
        Some (RegFile ok old) \<Rightarrow> fs_put p (RegFile ok (old @ bs)) w
      | _ \<Rightarrow> w)"

definition os_Remove :: "path \<Rightarrow> world \<Rightarrow> error + world" where
  "os_Remove p w =
     (case fs_lookup w p of
        None \<Rightarrow> Inl ENOENT
      | Some (RegFile ok bs) \<Rightarrow> Inr (fs_del p w)
      | Some (SubDir e) \<Rightarrow> if e then Inr (fs_del p w) else Inl ENOTEMPTY)"

text \<open>\<open>os.ReadDir\<close> returns the entries sorted by file name.\<close>

definition os_ReadDir :: "path \<Rightarrow> world \<Rightarrow> error + (string \<times> node) list" where
  "os_ReadDir p w =
     (if p = [''todos'']
      then (case todos_dir w of None \<Rightarrow> Inl ENOENT | Some es \<Rightarrow> Inr (sort_key fst es))
      else Inl ENOENT)"

definition entry_IsDir :: "string \<times> node \<Rightarrow> bool" where
  "entry_IsDir entry = (case snd entry of SubDir e \<Rightarrow> True | RegFile ok bs \<Rightarrow> False)"

definition entry_Name :: "string \<times> node \<Rightarrow> string" where
  "entry_Name entry = fst entry"

text \<open>The conversions \<open>[]byte(s)\<close> and \<open>string(bs)\<close>.\<close>

definition bytes_of_string :: "string \<Rightarrow> byte list" where
  "bytes_of_string s = map of_char s"

definition string_of_bytes :: "byte list \<Rightarrow> string" where
  "string_of_bytes bs = map (\<lambda>b. char_of (unat b)) bs"

subsection \<open>The program\<close>

text \<open>Lines 24-34.\<close>

definition complete :: "Todo \<Rightarrow> Todo" where
  "complete todo = todo\<lparr>completed := True\<rparr>"

definition uncomplete :: "Todo \<Rightarrow> Todo" where
  "uncomplete todo = todo\<lparr>completed := False\<rparr>"

definition update :: "string \<Rightarrow> Todo \<Rightarrow> Todo" where
  "update ttl todo = todo\<lparr>title := ttl\<rparr>"

text \<open>\<open>getDirPath\<close> and \<open>getFilePath\<close> (lines 108-123).\<close>

definition getDirPath :: "world \<Rightarrow> path outcome" where
  "getDirPath w =
     (case os_Getwd w of
        Inl err \<Rightarrow> Halt 1 w
      | Inr dir \<Rightarrow> Ret (path_Join dir ''todos'') w)"

definition getFilePath :: "TODOId \<Rightarrow> world \<Rightarrow> path outcome" where
  "getFilePath i w =
     (case getDirPath w of
        Halt c w1 \<Rightarrow> Halt c w1
      | Ret dir w1 \<Rightarrow> Ret (path_Join dir (strconv_Itoa (sint i))) w1)"

text \<open>The bytes \<open>save\<close> writes (lines 45-54): the flag byte, then the title.\<close>

definition completedByte_of :: "Todo \<Rightarrow> byte list" where
  "completedByte_of todo =
     (let completedByte = replicate 1 (0 :: byte)
      in if completed todo then completedByte[0 := 0x1] else completedByte[0 := 0x0])"

definition encode :: "Todo \<Rightarrow> byte list" where
  "encode todo = completedByte_of todo @ bytes_of_string (title todo)"

text \<open>\<open>save\<close> (lines 36-55).\<close>

definition save :: "Todo \<Rightarrow> world \<Rightarrow> unit outcome" where
  "save todo w =
     (case getFilePath (todo_id todo) w of
        Halt c w1 \<Rightarrow> Halt c w1
      | Ret filepath w1 \<Rightarrow>
          (case os_Create filepath w1 of
             Inl err \<Rightarrow> Halt 1 w1
           | Inr w2 \<Rightarrow>
               (let completedByte = completedByte_of todo;
                    w3 = file_Write filepath completedByte w2;
                    titleBytes = bytes_of_string (title todo);
                    w4 = file_Write filepath titleBytes w3
                in Ret () w4)))"

text \<open>\<open>delete\<close> (lines 57-63).\<close>

definition delete :: "Todo \<Rightarrow> world \<Rightarrow> unit outcome" where
  "delete todo w =
     (case getFilePath (todo_id todo) w of
        Halt c w1 \<Rightarrow> Halt c w1
      | Ret filepath w1 \<Rightarrow>
          (case os_Remove filepath w1 of
             Inl err \<Rightarrow>
               Ret () (fmt_Print [Txt ''Error deleting todo file '', PathV filepath,
                                  Txt '': '', ErrV err, Txt ''\<newline>''] w1)
           | Inr w2 \<Rightarrow> Ret () w2))"

text \<open>\<open>print\<close> (lines 65-67): \<open>"%d\t%s\n"\<close>.\<close>

definition print :: "Todo \<Rightarrow> world \<Rightarrow> world" where
  "print todo w =
     fmt_Print [Txt (FormatUint (uint (todo_id todo)) @ [CHR 0x09] @ title todo @ ''\<newline>'')] w"

text \<open>\<open>printHelp\<close> (lines 69-83).\<close>

definition help_text :: string where
  "help_text =
     ''Select action:\<newline>'' @
     ''1: List all TODOs\<newline>'' @
     ''2: Add new TODO\<newline>'' @
     ''3: Complete TODO\<newline>'' @
     ''4: Uncomplete TODO\<newline>'' @
     ''5: Delete TODO\<newline>'' @
     ''6: List completed TODOs\<newline>'' @
     ''7: List uncompleted TODOs\<newline>'' @
     ''8: Edit TODO\<newline>'' @
     ''9: Show this help\<newline>'' @
     ''0: Exit\<newline>''"

definition printHelp :: "world \<Rightarrow> world" where
  "printHelp w = fmt_Print [Txt help_text] w"

text \<open>
  \<open>getTodoId\<close> (lines 85-100): a \<open>for\<close> loop that leaves only through \<open>return\<close>.
\<close>

partial_function (option) getTodoId :: "world \<Rightarrow> (TODOId \<times> world) option" where
  "getTodoId w =
     (let w1 = fmt_Print [Txt ''Select todo: ''] w;
          (idRaw, w2) = fmt_Scanln w1
      in case strconv_Atoi idRaw of
           Inl err \<Rightarrow>
             getTodoId (fmt_Print [Txt ''Error reading id: '', ErrV err, Txt ''\<newline>''] w2)
         | Inr idInt \<Rightarrow> Some (word_of_int idInt, w2))"

declare getTodoId.simps [code]

text \<open>\<open>getTodoTitle\<close> (lines 102-106).\<close>

definition getTodoTitle :: "world \<Rightarrow> string \<times> world" where
  "getTodoTitle w =
     (let (ttl, w1) = bufio_ReadString_nl w
      in (strings_Trim ttl ''\<newline>'', w1))"

text \<open>
  The read loop of \<open>LoadTodo\<close> (lines 141-147): it stops at \<open>io.EOF\<close> and at nothing else.
\<close>

partial_function (option) readTitle :: "os_File \<Rightarrow> byte list \<Rightarrow> string \<Rightarrow> string option" where
  "readTitle f buf ttl =
     (case file_Read buf f of
        ((n, err, buf'), f') \<Rightarrow>
          if err = Some EOF then Some ttl
          else readTitle f' buf' (ttl @ string_of_bytes (take n buf')))"

declare readTitle.simps [code]

text \<open>Lines 133-147 of \<open>LoadTodo\<close>: the flag and the title read from the open file.\<close>

definition decode :: "os_File \<Rightarrow> (bool \<times> string) option" where
  "decode f =
     (let completedByte = replicate 1 (0 :: byte);
          buf = replicate 64 (0 :: byte);
          ((n, err, completedByte'), f') = file_Read completedByte f;
          completed' = ((completedByte' ! 0) AND 0x1 = 0x1)
      in case readTitle f' buf '''' of
           None \<Rightarrow> None
         | Some ttl \<Rightarrow> Some (completed', ttl))"

text \<open>\<open>LoadTodo\<close> (lines 125-154).\<close>

definition LoadTodo :: "TODOId \<Rightarrow> world \<Rightarrow> (error + Todo) outcome option" where
  "LoadTodo i w =
     (case getFilePath i w of
        Halt c w1 \<Rightarrow> Some (Halt c w1)
      | Ret filepath w1 \<Rightarrow>
          (case os_Open filepath w1 of
             Inl err \<Rightarrow> Some (Ret (Inl err) w1)
           | Inr f \<Rightarrow>
               (case decode f of
                  None \<Rightarrow> None
                | Some (c, ttl) \<Rightarrow>
                    Some (Ret (Inr \<lparr>todo_id = i, completed = c, title = ttl\<rparr>) w1))))"

text \<open>\<open>createTodoItem\<close> (lines 156-168).\<close>

definition createTodoItem :: "world \<Rightarrow> unit outcome" where
  "createTodoItem w =
     (let w1 = fmt_Print [Txt ''title: ''] w;
          (ttl, w2) = getTodoTitle w1;
          (r, w3) = rand_Intn 1000 w2;
          todo = \<lparr>todo_id = word_of_int r, completed = False, title = ttl\<rparr>
      in case save todo w3 of
           Halt c w4 \<Rightarrow> Halt c w4
         | Ret u w4 \<Rightarrow>
             Ret () (fmt_Print [Txt (''Saved with id: '' @ FormatUint (uint (todo_id todo))
                                      @ ''\<newline>'')] w4))"

text \<open>\<open>changeTodoItemState\<close> (lines 170-188).\<close>

definition changeTodoItemState :: "bool \<Rightarrow> world \<Rightarrow> unit outcome option" where
  "changeTodoItemState cmpl w =
     (case getTodoId w of
        None \<Rightarrow> None
      | Some (i, w1) \<Rightarrow>
          (case LoadTodo i w1 of
             None \<Rightarrow> None
           | Some (Halt c w2) \<Rightarrow> Some (Halt c w2)
           | Some (Ret (Inl err) w2) \<Rightarrow> Some (Ret () (fmt_Print [Txt ''Todo not found\<newline>''] w2))
           | Some (Ret (Inr todo) w2) \<Rightarrow>
               (let todo' = (if cmpl then complete todo else uncomplete todo)
                in case save todo' w2 of
                     Halt c w3 \<Rightarrow> Some (Halt c w3)
                   | Ret u w3 \<Rightarrow> Some (Ret () (fmt_Print [Txt ''Todo updated\<newline>''] w3)))))"

text \<open>\<open>editTodo\<close> (lines 190-207).\<close>

definition editTodo :: "world \<Rightarrow> unit outcome option" where
  "editTodo w =
     (case getTodoId w of
        None \<Rightarrow> None
      | Some (i, w1) \<Rightarrow>
          (case LoadTodo i w1 of
             None \<Rightarrow> None
           | Some (Halt c w2) \<Rightarrow> Some (Halt c w2)
           | Some (Ret (Inl err) w2) \<Rightarrow> Some (Ret () (fmt_Print [Txt ''Todo not found\<newline>''] w2))
           | Some (Ret (Inr todo) w2) \<Rightarrow>
               (let w3 = fmt_Print [Txt (''old title: '' @ title todo)] w2;
                    w4 = fmt_Print [Txt ''new title: ''] w3;
                    (ttl, w5) = getTodoTitle w4;
                    todo' = update ttl todo
                in case save todo' w5 of
                     Halt c w6 \<Rightarrow> Some (Halt c w6)
                   | Ret u w6 \<Rightarrow> Some (Ret () (fmt_Print [Txt ''Todo updated\<newline>''] w6)))))"

text \<open>\<open>deleteTodo\<close> (lines 209-221).\<close>

definition deleteTodo :: "world \<Rightarrow> unit outcome option" where
  "deleteTodo w =
     (case getTodoId w of
        None \<Rightarrow> None
      | Some (i, w1) \<Rightarrow>
          (case LoadTodo i w1 of
             None \<Rightarrow> None
           | Some (Halt c w2) \<Rightarrow> Some (Halt c w2)
           | Some (Ret (Inl err) w2) \<Rightarrow> Some (Ret () (fmt_Print [Txt ''Todo not found\<newline>''] w2))
           | Some (Ret (Inr todo) w2) \<Rightarrow>
               (case delete todo w2 of
                  Halt c w3 \<Rightarrow> Some (Halt c w3)
                | Ret u w3 \<Rightarrow> Some (Ret () (fmt_Print [Txt ''Todo deleted\<newline>''] w3)))))"

text \<open>\<open>loadAllTodos\<close> (lines 223-260): the loop over the entries, then the function.\<close>

fun loadAllTodos_loop ::
  "(string \<times> node) list \<Rightarrow> Todo list \<Rightarrow> world \<Rightarrow> Todo list outcome option" where
  "loadAllTodos_loop [] todos w = Some (Ret todos w)"
| "loadAllTodos_loop (entry # entries) todos w =
     (if entry_IsDir entry then loadAllTodos_loop entries todos w
      else if \<not> regexp_MatchString_digits (entry_Name entry)
        then loadAllTodos_loop entries todos w
      else (case strconv_Atoi (entry_Name entry) of
              Inl err \<Rightarrow> loadAllTodos_loop entries todos w
            | Inr idInt \<Rightarrow>
                (case LoadTodo (word_of_int idInt) w of
                   None \<Rightarrow> None
                 | Some (Halt c w1) \<Rightarrow> Some (Halt c w1)
                 | Some (Ret (Inl err) w1) \<Rightarrow> loadAllTodos_loop entries todos w1
                 | Some (Ret (Inr todo) w1) \<Rightarrow> loadAllTodos_loop entries (todos @ [todo]) w1)))"

definition loadAllTodos :: "world \<Rightarrow> Todo list outcome option" where
  "loadAllTodos w =
     (case getDirPath w of
        Halt c w1 \<Rightarrow> Some (Halt c w1)
      | Ret dir w1 \<Rightarrow>
          (case os_ReadDir dir w1 of
             Inl err \<Rightarrow> Some (Halt 1 w1)
           | Inr entries \<Rightarrow> loadAllTodos_loop entries [] w1))"

text \<open>The partition loop of \<open>listTodos\<close> (lines 265-274).\<close>

fun partition_loop :: "Todo list \<Rightarrow> Todo list \<times> Todo list \<Rightarrow> Todo list \<times> Todo list" where
  "partition_loop [] (completedTodos, uncompletedTodos) = (completedTodos, uncompletedTodos)"
| "partition_loop (todo # todos) (completedTodos, uncompletedTodos) =
     (if completed todo
      then partition_loop todos (completedTodos @ [todo], uncompletedTodos)
      else partition_loop todos (completedTodos, uncompletedTodos @ [todo]))"

definition partition_todos :: "Todo list \<Rightarrow> Todo list \<times> Todo list" where
  "partition_todos todos = partition_loop todos ([], [])"

text \<open>\<open>for _, todo := range xs { todo.print() }\<close>.\<close>

fun print_each :: "Todo list \<Rightarrow> world \<Rightarrow> world" where
  "print_each [] w = w"
| "print_each (todo # todos) w = print_each todos (print todo w)"

text \<open>\<open>listTodos\<close> (lines 262-293).\<close>

definition listTodos :: "bool \<Rightarrow> bool \<Rightarrow> world \<Rightarrow> unit outcome option" where
  "listTodos includeUncomplete includeComplete w =
     (case loadAllTodos w of
        None \<Rightarrow> None
      | Some (Halt c w1) \<Rightarrow> Some (Halt c w1)
      | Some (Ret todos w1) \<Rightarrow>
          (let (completedTodos, uncompletedTodos) = partition_todos todos;
               w2 = (if includeUncomplete
                     then print_each uncompletedTodos
                            (fmt_Print [Txt (FormatUint (int (length uncompletedTodos))
                                             @ '' uncompleted todos:\<newline>'')] w1)
                     else w1);
               w3 = (if includeUncomplete \<and> includeComplete
                     then fmt_Print [Txt ''\<newline>''] w2 else w2);
               w4 = (if includeComplete
                     then print_each completedTodos
                            (fmt_Print [Txt (FormatUint (int (length completedTodos))
                                             @ '' completed todos:\<newline>'')] w3)
                     else w3)
           in Some (Ret () w4)))"

text \<open>The \<open>switch\<close> of \<open>main\<close> (lines 311-335).\<close>

definition main_switch :: "int \<Rightarrow> world \<Rightarrow> unit outcome option" where
  "main_switch action w =
     (if action = 1 then listTodos True True w
      else if action = 2 then Some (createTodoItem w)
      else if action = 3 then changeTodoItemState True w
      else if action = 4 then changeTodoItemState False w
      else if action = 5 then deleteTodo w
      else if action = 6 then listTodos True False w
      else if action = 7 then listTodos False True w
      else if action = 8 then editTodo w
      else if action = 9 then Some (Ret () (printHelp w))
      else if action = 0 then Some (Halt 0 (fmt_Print [Txt ''Goodbye!\<newline>''] w))
      else Some (Ret () (fmt_Print [Txt ''Unknown action\<newline>''] w)))"

text \<open>The loop of \<open>main\<close> (lines 300-336) and \<open>main\<close> itself.\<close>

partial_function (option) main_loop :: "world \<Rightarrow> unit outcome option" where
  "main_loop w =
     (let w1 = fmt_Print [Txt ''> ''] w;
          (actionRaw, w2) = fmt_Scanln w1
      in case strconv_Atoi actionRaw of
           Inl err \<Rightarrow>
             main_loop (fmt_Print [Txt ''Error reading action: '', ErrV err, Txt ''\<newline>''] w2)
         | Inr action \<Rightarrow>
             (case main_switch action w2 of
                None \<Rightarrow> None
              | Some (Halt c w3) \<Rightarrow> Some (Halt c w3)
              | Some (Ret u w3) \<Rightarrow> main_loop w3))"

declare main_loop.simps [code]

definition main :: "world \<Rightarrow> unit outcome option" where
  "main w = main_loop (printHelp (fmt_Print [Txt ''Simple CLI TODO app\<newline>''] w))"

text \<open>
  What \<open>getTodoId\<close> prints while it rejects the tokens \<open>bad\<close>, one prompt and one error
  line for each.
\<close>

definition retry_output :: "string list \<Rightarrow> out list" where
  "retry_output bad =
     concat (map (\<lambda>t. [Txt ''Select todo: '', Txt ''Error reading id: '',
                        ErrV (projl (strconv_Atoi t)), Txt ''\<newline>'']) bad)"

text \<open>
  For stating what \<open>loadAllTodos\<close> returns: the Todo an entry contributes, if any, and
  whether the load that the entry triggers returns at all.
\<close>

definition entry_todo :: "world \<Rightarrow> string \<times> node \<Rightarrow> Todo option" where
  "entry_todo w entry =
     (if entry_IsDir entry then None
      else if \<not> regexp_MatchString_digits (entry_Name entry) then None
      else (case strconv_Atoi (entry_Name entry) of
              Inl err \<Rightarrow> None
            | Inr idInt \<Rightarrow>
                (case LoadTodo (word_of_int idInt) w of
                   Some (Ret (Inr todo) w1) \<Rightarrow> Some todo
                 | _ \<Rightarrow> None)))"

definition entry_returns :: "world \<Rightarrow> string \<times> node \<Rightarrow> bool" where
  "entry_returns w entry =
     (if entry_IsDir entry then True
      else if \<not> regexp_MatchString_digits (entry_Name entry) then True
      else (case strconv_Atoi (entry_Name entry) of
              Inl err \<Rightarrow> True
            | Inr idInt \<Rightarrow> LoadTodo (word_of_int idInt) w \<noteq> None))"

section \<open>Properties\<close>

subsection \<open>Reading a file\<close>

lemma unat_of_char_byte: "unat (of_char c :: byte) = of_char c"
proof -
  have "unat (of_nat (of_char c :: nat) :: byte) = (of_char c :: nat) mod 256"
    by (simp add: unat_of_nat)
  then show ?thesis
    by (simp add: of_nat_of_char)
qed

lemma string_of_bytes_of_string: "string_of_bytes (bytes_of_string s) = s"
  by (induction s) (simp_all add: string_of_bytes_def bytes_of_string_def unat_of_char_byte)

lemma string_of_bytes_append:
  "string_of_bytes (xs @ ys) = string_of_bytes xs @ string_of_bytes ys"
  by (simp add: string_of_bytes_def)

lemma file_Read_eof:
  "length bs \<le> off \<Longrightarrow> buf \<noteq> [] \<Longrightarrow>
   file_Read buf (FileH bs off) = ((0, Some EOF, buf), FileH bs off)"
  by (simp add: file_Read_def)

lemma file_Read_chunk:
  assumes "off < length bs" and "buf \<noteq> []" and "chunk = take (length buf) (drop off bs)"
  shows "file_Read buf (FileH bs off) =
           ((length chunk, None, chunk @ drop (length chunk) buf), FileH bs (off + length chunk))"
  using assms by (simp add: file_Read_def Let_def)

lemma file_Read_DirH: "file_Read buf DirH = ((0, Some EISDIR, buf), DirH)"
  by (simp add: file_Read_def)

text \<open>
  On a regular file the read loop ends, whatever the size of the buffer, with the bytes
  from the offset to the end of the file: induction on the number of bytes left.
\<close>

lemma readTitle_FileH:
  "buf \<noteq> [] \<Longrightarrow> readTitle (FileH bs off) buf ttl = Some (ttl @ string_of_bytes (drop off bs))"
proof (induction "length bs - off" arbitrary: off buf ttl rule: less_induct)
  case less
  show ?case
  proof (cases "off < length bs")
    case False
    then have "length bs \<le> off" by simp
    then show ?thesis
      using less.prems
      by (subst readTitle.simps) (simp add: file_Read_eof string_of_bytes_def)
  next
    case True
    define chunk where "chunk = take (length buf) (drop off bs)"
    define n where "n = length chunk"
    have npos: "0 < n" using True less.prems by (simp add: chunk_def n_def)
    have buf': "chunk @ drop n buf \<noteq> []" using npos by (auto simp: n_def)
    have step: "readTitle (FileH bs off) buf ttl =
        readTitle (FileH bs (off + n)) (chunk @ drop n buf) (ttl @ string_of_bytes chunk)"
      by (subst readTitle.simps)
         (simp add: file_Read_chunk[OF True less.prems chunk_def] n_def)
    have "length bs - (off + n) < length bs - off" using True npos by simp
    from less.hyps[OF this buf'] have rec:
      "readTitle (FileH bs (off + n)) (chunk @ drop n buf) (ttl @ string_of_bytes chunk)
        = Some ((ttl @ string_of_bytes chunk) @ string_of_bytes (drop (off + n) bs))" .
    have d: "drop (off + n) bs = drop n (drop off bs)"
      by (simp add: add.commute)
    have "chunk = take n (drop off bs)"
      unfolding chunk_def n_def
      by (cases "length buf \<le> length (drop off bs)") (simp_all add: min_def)
    then have "chunk @ drop (off + n) bs = drop off bs"
      by (simp only: d append_take_drop_id)
    then have "string_of_bytes chunk @ string_of_bytes (drop (off + n) bs)
                 = string_of_bytes (drop off bs)"
      by (simp add: string_of_bytes_append[symmetric])
    then show ?thesis using step rec by simp
  qed
qed

text \<open>
  On a directory every \<open>Read\<close> fails with an error that is not \<open>io.EOF\<close>, so the loop
  never leaves: by the induction rule of the least fixed point.
\<close>

lemma readTitle_Some_not_DirH:
  assumes "readTitle f b t = Some y"
  shows "f \<noteq> DirH"
  using assms
proof (rule readTitle.raw_induct[rotated 1, where P = "\<lambda>f b t y. f \<noteq> DirH"])
  fix rt :: "os_File \<Rightarrow> byte list \<Rightarrow> string \<Rightarrow> string option"
  fix f buf ttl y
  assume IH: "\<And>f buf ttl y. rt f buf ttl = Some y \<Longrightarrow> f \<noteq> DirH"
  assume run: "(case file_Read buf f of
        ((n, err, buf'), f') \<Rightarrow>
          if err = Some EOF then Some ttl
          else rt f' buf' (ttl @ string_of_bytes (take n buf'))) = Some y"
  show "f \<noteq> DirH"
  proof
    assume "f = DirH"
    with run have "rt DirH buf (ttl @ string_of_bytes (take 0 buf)) = Some y"
      by (simp add: file_Read_DirH)
    from IH[OF this] show False by simp
  qed
qed

lemma readTitle_DirH: "readTitle DirH buf ttl = None"
  using readTitle_Some_not_DirH[of DirH buf ttl] by (cases "readTitle DirH buf ttl") auto

lemma and_1_eq_1_iff_bit0: "(b AND 1 = 1) = bit b 0" for b :: byte
  by (simp add: bit_iff_and_drop_bit_eq_1)

lemma decode_FileH_Cons:
  "decode (FileH (b # bs) 0) = Some (b AND 1 = 1, string_of_bytes bs)"
  by (simp add: decode_def file_Read_def readTitle_FileH)

lemma decode_FileH_encode: "decode (FileH (encode t) 0) = Some (completed t, title t)"
  by (simp add: encode_def completedByte_of_def Let_def decode_FileH_Cons string_of_bytes_of_string)

lemma decode_DirH: "decode DirH = None"
  by (simp add: decode_def file_Read_DirH readTitle_DirH)

subsection \<open>The codec\<close>

text \<open>
  C1. Codec round-trip: for every completion flag and every title (any bytes, of any
  length, the empty title included), decoding the bytes that \<open>save\<close> writes for a Todo
  returns, and gives back exactly that flag and that title; the 64-byte reads put the
  title together again wherever the chunk boundaries fall.
\<close>

theorem codec_round_trip:
  "decode (FileH (encode \<lparr>todo_id = i, completed = c, title = t\<rparr>) 0) = Some (c, t)"
  using decode_FileH_encode[of "\<lparr>todo_id = i, completed = c, title = t\<rparr>"] by simp

text \<open>
  C2. Flag isolation: for every first byte \<open>b\<close> of a stored file the decoded \<open>completed\<close>
  is the least-significant bit of \<open>b\<close>, and flipping any set of the other bits of \<open>b\<close>
  (the bits of \<open>m\<close>, moved up by one) does not change it.
\<close>

theorem flag_isolation:
  "decode (FileH (b # bs) 0) = Some (bit b 0, string_of_bytes bs) \<and>
   map_option fst (decode (FileH ((b XOR push_bit 1 m) # bs) 0))
     = map_option fst (decode (FileH (b # bs) 0))"
  by (simp add: decode_FileH_Cons and_1_eq_1_iff_bit0 bit_0 even_xor_iff)

subsection \<open>The partition of the listing\<close>

lemma partition_loop_filter:
  "partition_loop todos (cs, us) =
     (cs @ filter completed todos, us @ filter (\<lambda>t. \<not> completed t) todos)"
  by (induction todos arbitrary: cs us) simp_all

text \<open>
  C7. Partition correctness and stability: for every input sequence the completed bucket
  holds exactly the Todos with \<open>completed = true\<close>, the uncompleted bucket exactly the
  others, each in the order of the input.
\<close>

theorem partition_stable:
  "partition_todos todos = (filter completed todos, filter (\<lambda>t. \<not> completed t) todos)"
  by (simp add: partition_todos_def partition_loop_filter)

subsection \<open>Files: save, load, delete\<close>

lemma getFilePath_eq:
  "getFilePath i w = (if getwd_ok w then Ret [''todos'', strconv_Itoa (sint i)] w else Halt 1 w)"
  by (simp add: getFilePath_def getDirPath_def os_Getwd_def path_Join_def)

lemma getFilePath_Ret:
  "getFilePath i w = Ret p w1 \<Longrightarrow> w1 = w \<and> getwd_ok w \<and> p = [''todos'', strconv_Itoa (sint i)]"
  by (simp add: getFilePath_eq split: if_splits)

lemma fs_lookup_fs_put:
  "parent_exists w [d, name] \<Longrightarrow> fs_lookup (fs_put [d, name] nd w) [d, name] = Some nd"
  by (auto simp: parent_exists_def fs_lookup_def fs_put_def update_conv')

lemma parent_exists_fs_put [simp]:
  "parent_exists (fs_put p nd w) q = parent_exists w q"
  by (simp add: parent_exists_def fs_put_def split: list.splits)

lemma getwd_ok_fs_put [simp]: "getwd_ok (fs_put p nd w) = getwd_ok w"
  by (simp add: fs_put_def split: list.splits)

lemma fs_put_fs_put [simp]: "fs_put p nd (fs_put p nd' w) = fs_put p nd w"
  by (cases "todos_dir w") (simp_all add: fs_put_def split: list.splits)

lemma fs_lookup_fs_del:
  "fs_lookup (fs_del [d, name] w) [d, name] = None"
  by (auto simp: fs_lookup_def fs_del_def delete_conv' split: option.splits)

lemma getwd_ok_fs_del [simp]: "getwd_ok (fs_del p w) = getwd_ok w"
  by (simp add: fs_del_def split: list.splits)

lemma os_Create_Inr:
  assumes "os_Create [d, name] w = Inr w2"
  shows "w2 = fs_put [d, name] (RegFile True []) w \<and> parent_exists w [d, name]"
  using assms
  by (auto simp: os_Create_def split: if_splits option.splits node.splits)

lemma save_Ret:
  assumes "save t w = Ret u w'"
  shows "getwd_ok w \<and> parent_exists w [''todos'', strconv_Itoa (sint (todo_id t))] \<and>
         w' = fs_put [''todos'', strconv_Itoa (sint (todo_id t))] (RegFile True (encode t)) w"
proof -
  let ?p = "[''todos'', strconv_Itoa (sint (todo_id t))]"
  from assms have ok: "getwd_ok w"
    by (simp add: save_def getFilePath_eq split: if_splits)
  from assms ok obtain w2 where c: "os_Create ?p w = Inr w2"
    by (cases "os_Create ?p w") (simp_all add: save_def getFilePath_eq)
  from os_Create_Inr[OF c] have w2: "w2 = fs_put ?p (RegFile True []) w" and pe: "parent_exists w ?p"
    by simp_all
  have "w' = file_Write ?p (bytes_of_string (title t)) (file_Write ?p (completedByte_of t) w2)"
    using assms ok c by (simp add: save_def getFilePath_eq Let_def)
  then have "w' = fs_put ?p (RegFile True (encode t)) w"
    using pe by (simp add: w2 file_Write_def fs_lookup_fs_put encode_def)
  with ok pe show ?thesis by simp
qed

lemma LoadTodo_RegFile:
  assumes "getwd_ok w"
    and "fs_lookup w [''todos'', strconv_Itoa (sint i)] = Some (RegFile True (encode t))"
  shows "LoadTodo i w = Some (Ret (Inr (t\<lparr>todo_id := i\<rparr>)) w)"
  using assms
  by (simp add: LoadTodo_def getFilePath_eq os_Open_def decode_FileH_encode)

lemma LoadTodo_after_save:
  "save t w = Ret () w' \<Longrightarrow> LoadTodo (todo_id t) w' = Some (Ret (Inr t) w')"
proof -
  assume a: "save t w = Ret () w'"
  let ?p = "[''todos'', strconv_Itoa (sint (todo_id t))]"
  from save_Ret[OF a] have ok: "getwd_ok w" and pe: "parent_exists w ?p"
    and w': "w' = fs_put ?p (RegFile True (encode t)) w" by simp_all
  have "getwd_ok w'" using ok w' by simp
  moreover have "fs_lookup w' ?p = Some (RegFile True (encode t))"
    using pe w' by (simp add: fs_lookup_fs_put)
  ultimately show ?thesis
    using LoadTodo_RegFile[of w' "todo_id t" t] by simp
qed

lemma LoadTodo_open_fails:
  "getFilePath i w = Ret p w1 \<Longrightarrow> os_Open p w1 = Inl e \<Longrightarrow> LoadTodo i w = Some (Ret (Inl e) w)"
  by (auto simp: LoadTodo_def dest: getFilePath_Ret)

lemma delete_then_load:
  assumes "getFilePath (todo_id t) w = Ret p w1" and "os_Remove p w1 = Inr w'"
  shows "delete t w = Ret () w' \<and> LoadTodo (todo_id t) w' = Some (Ret (Inl ENOENT) w')"
proof -
  let ?p = "[''todos'', strconv_Itoa (sint (todo_id t))]"
  from getFilePath_Ret[OF assms(1)] have w1: "w1 = w" and ok: "getwd_ok w" and p: "p = ?p"
    by simp_all
  from assms(2) have w': "w' = fs_del ?p w"
    by (auto simp: os_Remove_def w1 p split: option.splits node.splits if_splits)
  have "delete t w = Ret () w'"
    using assms by (simp add: delete_def)
  moreover have "os_Open ?p w' = Inl ENOENT"
    by (simp add: os_Open_def w' fs_lookup_fs_del)
  moreover have "getFilePath (todo_id t) w' = Ret ?p w'"
    using ok w' by (simp add: getFilePath_eq)
  ultimately show ?thesis
    using LoadTodo_open_fails[of "todo_id t" w' ?p w' ENOENT] by simp
qed

lemma LoadTodo_stdout:
  "LoadTodo i (w\<lparr>stdout := out\<rparr>) =
     map_option (\<lambda>r. case r of Ret x w1 \<Rightarrow> Ret x (w1\<lparr>stdout := out\<rparr>)
                                  | Halt c w1 \<Rightarrow> Halt c (w1\<lparr>stdout := out\<rparr>))
       (LoadTodo i w)"
  by (simp add: LoadTodo_def getFilePath_eq os_Open_def fs_lookup_def
           split: option.splits sum.splits node.splits list.splits prod.splits)

lemma LoadTodo_same_world:
  assumes "getwd_ok w" and "LoadTodo i w = Some r"
  shows "\<exists>x. r = Ret x w"
  using assms
  by (auto simp: LoadTodo_def getFilePath_eq split: sum.splits option.splits)

text \<open>
  When \<open>save\<close> returns: the working directory resolves, the \<open>todos\<close> directory exists,
  and the entry of the Todo's id is absent or a regular file that can be opened. It then
  leaves that entry holding the encoded Todo. In every other state it ends the process.
\<close>

lemma save_returns:
  assumes "getwd_ok w" and "todos_dir w = Some es"
    and "map_of es (strconv_Itoa (sint (todo_id t))) = None \<or>
         (\<exists>bs. map_of es (strconv_Itoa (sint (todo_id t))) = Some (RegFile True bs))"
  shows "save t w =
           Ret () (w\<lparr>todos_dir :=
                       Some (AList.update (strconv_Itoa (sint (todo_id t)))
                               (RegFile True (encode t)) es)\<rparr>)"
proof -
  let ?n = "strconv_Itoa (sint (todo_id t))"
  let ?p = "[''todos'', ?n]"
  have pe: "parent_exists w ?p"
    using assms(2) by (simp add: parent_exists_def)
  have c: "os_Create ?p w = Inr (fs_put ?p (RegFile True []) w)"
    using assms(2,3) pe by (auto simp: os_Create_def fs_lookup_def)
  have "save t w = Ret () (file_Write ?p (bytes_of_string (title t))
                             (file_Write ?p (completedByte_of t) (fs_put ?p (RegFile True []) w)))"
    using assms(1) c by (simp add: save_def getFilePath_eq Let_def)
  also have "file_Write ?p (bytes_of_string (title t))
               (file_Write ?p (completedByte_of t) (fs_put ?p (RegFile True []) w))
             = fs_put ?p (RegFile True (encode t)) w"
    using pe by (simp add: file_Write_def fs_lookup_fs_put encode_def)
  also have "\<dots> = w\<lparr>todos_dir := Some (AList.update ?n (RegFile True (encode t)) es)\<rparr>"
    using assms(2) by (simp add: fs_put_def)
  finally show ?thesis .
qed

lemma save_Ret_env:
  assumes "save t w = Ret u w'"
  shows "getwd_ok w \<and>
         (\<exists>es. todos_dir w = Some es \<and>
            (map_of es (strconv_Itoa (sint (todo_id t))) = None \<or>
             (\<exists>bs. map_of es (strconv_Itoa (sint (todo_id t))) = Some (RegFile True bs))))"
proof -
  let ?p = "[''todos'', strconv_Itoa (sint (todo_id t))]"
  from assms have ok: "getwd_ok w"
    by (simp add: save_def getFilePath_eq split: if_splits)
  from assms ok obtain w2 where c: "os_Create ?p w = Inr w2"
    by (cases "os_Create ?p w") (simp_all add: save_def getFilePath_eq)
  then show ?thesis
    using ok
    by (auto simp: os_Create_def parent_exists_def fs_lookup_def
             split: if_splits option.splits node.splits)
qed

text \<open>
  C5. Persistence idempotence: for every Todo (any id, flag and title), in every state
  where the file can be created (the working directory resolves, the \<open>todos\<close> directory
  exists, the entry of the id is absent or a regular file that can be opened), \<open>save\<close>
  returns, the entry then holds the encoded Todo, and loading the Todo's id in the
  resulting state returns a Todo equal to the saved one in id, completed and title.
\<close>

theorem save_then_load:
  assumes "getwd_ok w" and "todos_dir w = Some es"
    and "map_of es (strconv_Itoa (sint (todo_id t))) = None \<or>
         (\<exists>bs. map_of es (strconv_Itoa (sint (todo_id t))) = Some (RegFile True bs))"
  shows "\<exists>w'. save t w = Ret () w' \<and>
              todos_dir w' = Some (AList.update (strconv_Itoa (sint (todo_id t)))
                                      (RegFile True (encode t)) es) \<and>
              LoadTodo (todo_id t) w' = Some (Ret (Inr t) w')"
proof -
  let ?w' = "w\<lparr>todos_dir := Some (AList.update (strconv_Itoa (sint (todo_id t)))
                                   (RegFile True (encode t)) es)\<rparr>"
  have s: "save t w = Ret () ?w'"
    using assms by (rule save_returns)
  from LoadTodo_after_save[OF s] s show ?thesis by simp
qed

theorem save_then_load_witness:
  "getwd_ok \<lparr>getwd_ok = True, todos_dir = Some [(''42'', RegFile True [0, 1, 2])],
             stdin = [], stdout = [], rand_src = []\<rparr>
   \<and> map_of [(''42'', RegFile True [0, 1, 2 :: byte])]
        (strconv_Itoa (sint (todo_id \<lparr>todo_id = 42, completed = True, title = ''Buy milk''\<rparr>)))
      = Some (RegFile True [0, 1, 2])
   \<and> save \<lparr>todo_id = 42, completed = True, title = ''Buy milk''\<rparr>
        \<lparr>getwd_ok = True, todos_dir = Some [(''42'', RegFile True [0, 1, 2])],
         stdin = [], stdout = [], rand_src = []\<rparr>
     = Ret () \<lparr>getwd_ok = True,
               todos_dir = Some [(''42'', RegFile True (1 # bytes_of_string ''Buy milk''))],
               stdin = [], stdout = [], rand_src = []\<rparr>
   \<and> LoadTodo 42
        \<lparr>getwd_ok = True,
         todos_dir = Some [(''42'', RegFile True (1 # bytes_of_string ''Buy milk''))],
         stdin = [], stdout = [], rand_src = []\<rparr>
     = Some (Ret (Inr \<lparr>todo_id = 42, completed = True, title = ''Buy milk''\<rparr>)
        \<lparr>getwd_ok = True,
         todos_dir = Some [(''42'', RegFile True (1 # bytes_of_string ''Buy milk''))],
         stdin = [], stdout = [], rand_src = []\<rparr>)"
proof -
  let ?t = "\<lparr>todo_id = 42, completed = True, title = ''Buy milk''\<rparr>"
  let ?es = "[(''42'', RegFile True [0, 1, 2 :: byte])]"
  let ?w = "\<lparr>getwd_ok = True, todos_dir = Some ?es,
             stdin = [], stdout = [], rand_src = []\<rparr>"
  have g: "getwd_ok ?w" by simp
  have d: "todos_dir ?w = Some ?es" by simp
  have m: "map_of ?es (strconv_Itoa (sint (todo_id ?t))) = Some (RegFile True [0, 1, 2])"
    by code_simp
  then have e: "map_of ?es (strconv_Itoa (sint (todo_id ?t))) = None \<or>
         (\<exists>bs. map_of ?es (strconv_Itoa (sint (todo_id ?t))) = Some (RegFile True bs))"
    by blast
  have s: "save ?t ?w = Ret () \<lparr>getwd_ok = True,
               todos_dir = Some [(''42'', RegFile True (1 # bytes_of_string ''Buy milk''))],
               stdin = [], stdout = [], rand_src = []\<rparr>"
    by code_simp
  from save_then_load[OF g d e] obtain w' where
    "save ?t ?w = Ret () w'" and "LoadTodo (todo_id ?t) w' = Some (Ret (Inr ?t) w')"
    by blast
  with s g m show ?thesis by simp
qed

text \<open>
  C8. For every id whose backing file does not exist or cannot be opened, \<open>LoadTodo\<close>
  returns the error of \<open>os.Open\<close> instead of a Todo, the state is unchanged and the
  process goes on; a missing file is such a case, and so is the file of a Todo right
  after \<open>delete\<close> removed it. The backing file is the path \<open>getFilePath\<close> returns.
\<close>

theorem load_not_found:
  assumes "getFilePath i w = Ret p w1"
  shows "(fs_lookup w1 p = None \<longrightarrow> os_Open p w1 = Inl ENOENT) \<and>
         (os_Open p w1 = Inl e \<longrightarrow> LoadTodo i w = Some (Ret (Inl e) w)) \<and>
         (todo_id t = i \<and> os_Remove p w1 = Inr w' \<longrightarrow>
            delete t w = Ret () w' \<and> LoadTodo i w' = Some (Ret (Inl ENOENT) w'))"
  using assms LoadTodo_open_fails[OF assms] delete_then_load[of t w p w1 w']
  by (auto simp: os_Open_def)

theorem load_not_found_witness:
  "getFilePath 999999
      \<lparr>getwd_ok = True, todos_dir = Some [(''7'', RegFile True (0 # bytes_of_string ''a''))],
       stdin = [], stdout = [], rand_src = []\<rparr>
     = Ret [''todos'', ''999999'']
      \<lparr>getwd_ok = True, todos_dir = Some [(''7'', RegFile True (0 # bytes_of_string ''a''))],
       stdin = [], stdout = [], rand_src = []\<rparr>
   \<and> fs_lookup
      \<lparr>getwd_ok = True, todos_dir = Some [(''7'', RegFile True (0 # bytes_of_string ''a''))],
       stdin = [], stdout = [], rand_src = []\<rparr> [''todos'', ''999999''] = None
   \<and> LoadTodo 999999
      \<lparr>getwd_ok = True, todos_dir = Some [(''7'', RegFile True (0 # bytes_of_string ''a''))],
       stdin = [], stdout = [], rand_src = []\<rparr>
     = Some (Ret (Inl ENOENT)
      \<lparr>getwd_ok = True, todos_dir = Some [(''7'', RegFile True (0 # bytes_of_string ''a''))],
       stdin = [], stdout = [], rand_src = []\<rparr>)
   \<and> getFilePath 7
      \<lparr>getwd_ok = True, todos_dir = Some [(''7'', RegFile True (0 # bytes_of_string ''a''))],
       stdin = [], stdout = [], rand_src = []\<rparr>
     = Ret [''todos'', ''7'']
      \<lparr>getwd_ok = True, todos_dir = Some [(''7'', RegFile True (0 # bytes_of_string ''a''))],
       stdin = [], stdout = [], rand_src = []\<rparr>
   \<and> os_Remove [''todos'', ''7'']
      \<lparr>getwd_ok = True, todos_dir = Some [(''7'', RegFile True (0 # bytes_of_string ''a''))],
       stdin = [], stdout = [], rand_src = []\<rparr>
     = Inr \<lparr>getwd_ok = True, todos_dir = Some [], stdin = [], stdout = [], rand_src = []\<rparr>
   \<and> delete \<lparr>todo_id = 7, completed = False, title = ''a''\<rparr>
      \<lparr>getwd_ok = True, todos_dir = Some [(''7'', RegFile True (0 # bytes_of_string ''a''))],
       stdin = [], stdout = [], rand_src = []\<rparr>
     = Ret () \<lparr>getwd_ok = True, todos_dir = Some [], stdin = [], stdout = [], rand_src = []\<rparr>
   \<and> LoadTodo 7 \<lparr>getwd_ok = True, todos_dir = Some [], stdin = [], stdout = [], rand_src = []\<rparr>
     = Some (Ret (Inl ENOENT)
         \<lparr>getwd_ok = True, todos_dir = Some [], stdin = [], stdout = [], rand_src = []\<rparr>)"
proof -
  let ?w = "\<lparr>getwd_ok = True, todos_dir = Some [(''7'', RegFile True (0 # bytes_of_string ''a''))],
       stdin = [], stdout = [], rand_src = []\<rparr>"
  let ?w' = "\<lparr>getwd_ok = True, todos_dir = Some [], stdin = [], stdout = [], rand_src = []\<rparr>"
  have p1: "getFilePath 999999 ?w = Ret [''todos'', ''999999''] ?w" by code_simp
  have l1: "fs_lookup ?w [''todos'', ''999999''] = None" by code_simp
  have p2: "getFilePath 7 ?w = Ret [''todos'', ''7''] ?w" by code_simp
  have r2: "os_Remove [''todos'', ''7''] ?w = Inr ?w'" by code_simp
  from load_not_found[OF p1, of ENOENT] l1
  have a: "LoadTodo 999999 ?w = Some (Ret (Inl ENOENT) ?w)" by simp
  from load_not_found[OF p2, of _ "\<lparr>todo_id = 7, completed = False, title = ''a''\<rparr>" ?w'] r2
  have b: "delete \<lparr>todo_id = 7, completed = False, title = ''a''\<rparr> ?w = Ret () ?w'
           \<and> LoadTodo 7 ?w' = Some (Ret (Inl ENOENT) ?w')" by simp
  from p1 l1 a p2 r2 b show ?thesis by simp
qed

subsection \<open>Creating a Todo\<close>

lemma strings_Trim_line:
  assumes "CHR ''\<newline>'' \<notin> set l"
  shows "strings_Trim (l @ ''\<newline>'') ''\<newline>'' = l"
proof -
  let ?P = "\<lambda>c. c = CHR ''\<newline>''"
  have trim: "strings_Trim s ''\<newline>'' = rev (dropWhile ?P (rev (dropWhile ?P s)))" for s
    by (simp add: strings_Trim_def)
  have keep: "dropWhile ?P xs = xs" if "CHR ''\<newline>'' \<notin> set xs" for xs
    using that by (cases xs) auto
  show ?thesis
  proof (cases "l = []")
    case True
    then show ?thesis by (simp add: trim)
  next
    case False
    have front: "dropWhile ?P (l @ ''\<newline>'') = l @ ''\<newline>''"
      using assms False by (cases l) auto
    have "CHR ''\<newline>'' \<notin> set (rev l)" using assms by simp
    from keep[OF this] show ?thesis
      by (simp add: trim front)
  qed
qed

lemma getTodoTitle_line:
  assumes "stdin w = l # ls" and "CHR ''\<newline>'' \<notin> set l"
  shows "getTodoTitle w = (l, w\<lparr>stdin := ls\<rparr>)"
  using assms by (simp add: getTodoTitle_def bufio_ReadString_nl_def strings_Trim_line)

lemma uint_small_id: "0 \<le> i \<Longrightarrow> i < 1000 \<Longrightarrow> uint (word_of_int i :: 64 word) = i"
  by (simp add: uint_word_of_int take_bit_eq_mod)

lemma rand_Intn_range:
  assumes "rand_Intn 1000 w = (r, w1)"
  shows "0 \<le> r \<and> r < 1000 \<and> stdout w1 = stdout w"
  using assms by (auto simp: rand_Intn_def split: list.splits)

lemma sint_small_id: "0 \<le> i \<Longrightarrow> i < 1000 \<Longrightarrow> sint (word_of_int i :: 64 word) = i"
  by (simp add: sint_sbintrunc' signed_take_bit_int_eq_self)

text \<open>
  C9. Create postconditions: for every title line and every value \<open>i\<close> that
  \<open>rand.Intn(1000)\<close> draws, in every state where the file of \<open>i\<close> can be created,
  \<open>createTodoItem\<close> returns; \<open>i\<close> lies in \<open>[0, 1000)\<close>, the Todo it built has the id \<open>i\<close>,
  the flag false and the line read as its title, that id is reported, and loading the id
  right afterwards returns that same record.
\<close>

theorem create_postconditions:
  assumes "getwd_ok w" and "todos_dir w = Some es"
    and "stdin w = l # ls" and "CHR ''\<newline>'' \<notin> set l"
    and "fst (rand_Intn 1000 w) = i"
    and "map_of es (strconv_Itoa i) = None \<or>
         (\<exists>bs. map_of es (strconv_Itoa i) = Some (RegFile True bs))"
  shows "0 \<le> i \<and> i < 1000 \<and> uint (word_of_int i :: TODOId) = i \<and>
         (\<exists>w'. createTodoItem w = Ret () w' \<and>
            LoadTodo (word_of_int i) w' =
              Some (Ret (Inr \<lparr>todo_id = word_of_int i, completed = False, title = l\<rparr>) w') \<and>
            stdout w' = stdout w @ [Txt ''title: '',
                                    Txt (''Saved with id: '' @ FormatUint i @ ''\<newline>'')])"
proof -
  define w1 where "w1 = fmt_Print [Txt ''title: ''] w"
  have t: "getTodoTitle w1 = (l, w1\<lparr>stdin := ls\<rparr>)"
    using assms(3,4) by (intro getTodoTitle_line) (simp_all add: w1_def fmt_Print_def)
  define w2 where "w2 = w1\<lparr>stdin := ls\<rparr>"
  obtain j w3 where r: "rand_Intn 1000 w2 = (j, w3)" by (cases "rand_Intn 1000 w2")
  have "fst (rand_Intn 1000 w2) = fst (rand_Intn 1000 w)"
    by (simp add: w2_def w1_def fmt_Print_def rand_Intn_def split: list.splits)
  with r assms(5) have j: "j = i" by simp
  from rand_Intn_range[OF r] have i: "0 \<le> i" "i < 1000"
    and out3: "stdout w3 = stdout w @ [Txt ''title: '']"
    by (simp_all add: j w2_def w1_def fmt_Print_def)
  have env3: "getwd_ok w3" "todos_dir w3 = Some es"
    using r assms(1,2)
    by (auto simp: rand_Intn_def w2_def w1_def fmt_Print_def split: list.splits)
  have u: "uint (word_of_int i :: 64 word) = i"
    using i by (rule uint_small_id)
  have sg: "sint (word_of_int i :: 64 word) = i"
    using i by (rule sint_small_id)
  let ?todo = "\<lparr>todo_id = word_of_int i :: 64 word, completed = False, title = l\<rparr>"
  have e: "map_of es (strconv_Itoa (sint (todo_id ?todo))) = None \<or>
         (\<exists>bs. map_of es (strconv_Itoa (sint (todo_id ?todo))) = Some (RegFile True bs))"
    using assms(6) by (simp add: sg)
  define w4 where "w4 = w3\<lparr>todos_dir :=
                       Some (AList.update (strconv_Itoa (sint (todo_id ?todo)))
                               (RegFile True (encode ?todo)) es)\<rparr>"
  have s: "save ?todo w3 = Ret () w4"
    unfolding w4_def using env3 e by (rule save_returns)
  define w' where "w' = fmt_Print [Txt (''Saved with id: '' @ FormatUint i @ ''\<newline>'')] w4"
  have c: "createTodoItem w = Ret () w'"
    by (simp add: createTodoItem_def w1_def[symmetric] t w2_def[symmetric] r j Let_def s u w'_def)
  from LoadTodo_after_save[OF s]
  have ld: "LoadTodo (word_of_int i) w4 = Some (Ret (Inr ?todo) w4)" by simp
  have out4: "stdout w4 = stdout w3"
    by (simp add: w4_def)
  have ld': "LoadTodo (word_of_int i) w' = Some (Ret (Inr ?todo) w')"
    using ld LoadTodo_stdout[where w = w4 and i = "word_of_int i"] by (simp add: w'_def fmt_Print_def)
  have "stdout w' = stdout w @ [Txt ''title: '',
                                Txt (''Saved with id: '' @ FormatUint i @ ''\<newline>'')]"
    by (simp add: w'_def fmt_Print_def out4 out3)
  with c ld' i u show ?thesis by blast
qed

theorem create_postconditions_witness:
  "CHR ''\<newline>'' \<notin> set ''Buy milk''
   \<and> fst (rand_Intn 1000
        \<lparr>getwd_ok = True, todos_dir = Some [(''7'', SubDir True)], stdin = [''Buy milk''],
         stdout = [], rand_src = [1042]\<rparr>) = 42
   \<and> map_of [(''7'', SubDir True)] (strconv_Itoa 42) = None
   \<and> createTodoItem
        \<lparr>getwd_ok = True, todos_dir = Some [(''7'', SubDir True)], stdin = [''Buy milk''],
         stdout = [], rand_src = [1042]\<rparr>
     = Ret ()
        \<lparr>getwd_ok = True,
         todos_dir = Some [(''7'', SubDir True),
                           (''42'', RegFile True (0 # bytes_of_string ''Buy milk''))],
         stdin = [],
         stdout = [Txt ''title: '', Txt ''Saved with id: 42\<newline>''],
         rand_src = []\<rparr>
   \<and> LoadTodo 42
        \<lparr>getwd_ok = True,
         todos_dir = Some [(''7'', SubDir True),
                           (''42'', RegFile True (0 # bytes_of_string ''Buy milk''))],
         stdin = [],
         stdout = [Txt ''title: '', Txt ''Saved with id: 42\<newline>''],
         rand_src = []\<rparr>
     = Some (Ret (Inr \<lparr>todo_id = 42, completed = False, title = ''Buy milk''\<rparr>)
        \<lparr>getwd_ok = True,
         todos_dir = Some [(''7'', SubDir True),
                           (''42'', RegFile True (0 # bytes_of_string ''Buy milk''))],
         stdin = [],
         stdout = [Txt ''title: '', Txt ''Saved with id: 42\<newline>''],
         rand_src = []\<rparr>)"
proof -
  let ?es = "[(''7'', SubDir True)]"
  let ?w = "\<lparr>getwd_ok = True, todos_dir = Some ?es, stdin = [''Buy milk''],
         stdout = [], rand_src = [1042]\<rparr>"
  let ?w' = "\<lparr>getwd_ok = True,
         todos_dir = Some [(''7'', SubDir True),
                           (''42'', RegFile True (0 # bytes_of_string ''Buy milk''))],
         stdin = [],
         stdout = [Txt ''title: '', Txt ''Saved with id: 42\<newline>''],
         rand_src = []\<rparr>"
  have g: "getwd_ok ?w" by simp
  have d: "todos_dir ?w = Some ?es" by simp
  have i: "stdin ?w = ''Buy milk'' # []" by simp
  have n: "CHR ''\<newline>'' \<notin> set ''Buy milk''" by simp
  have r: "fst (rand_Intn 1000 ?w) = 42" by code_simp
  have m: "map_of ?es (strconv_Itoa 42) = None" by code_simp
  then have e: "map_of ?es (strconv_Itoa 42) = None \<or>
         (\<exists>bs. map_of ?es (strconv_Itoa 42) = Some (RegFile True bs))"
    by blast
  have c: "createTodoItem ?w = Ret () ?w'" by code_simp
  from create_postconditions[OF g d i n r e] obtain w' where
    "createTodoItem ?w = Ret () w'"
    and "LoadTodo (word_of_int 42) w' =
           Some (Ret (Inr \<lparr>todo_id = word_of_int 42, completed = False, title = ''Buy milk''\<rparr>) w')"
    by blast
  with c n r m show ?thesis by simp
qed

subsection \<open>Reading an id\<close>

lemma getTodoId_bad:
  assumes "stdin w = t # ts" and "strconv_Atoi t = Inl e"
  shows "getTodoId w =
         getTodoId (w\<lparr>stdin := ts,
                       stdout := stdout w @ [Txt ''Select todo: '', Txt ''Error reading id: '',
                                             ErrV e, Txt ''\<newline>'']\<rparr>)"
  using assms by (subst getTodoId.simps) (simp add: fmt_Print_def fmt_Scanln_def)

lemma getTodoId_good:
  assumes "stdin w = t # ts" and "strconv_Atoi t = Inr n"
  shows "getTodoId w = Some (word_of_int n, w\<lparr>stdin := ts, stdout := stdout w @ [Txt ''Select todo: '']\<rparr>)"
  using assms by (subst getTodoId.simps) (simp add: fmt_Print_def fmt_Scanln_def)

lemma getTodoId_retries:
  assumes "stdin w = bad @ good # rest"
    and "\<forall>t \<in> set bad. isl (strconv_Atoi t)"
    and "strconv_Atoi good = Inr n"
  shows "getTodoId w =
         Some (word_of_int n,
               w\<lparr>stdin := rest,
                  stdout := stdout w @ retry_output bad @ [Txt ''Select todo: '']\<rparr>)"
  using assms
proof (induction bad arbitrary: w)
  case Nil
  then show ?case by (simp add: getTodoId_good retry_output_def)
next
  case (Cons t bad)
  from Cons.prems(2) obtain e where e: "strconv_Atoi t = Inl e"
    by (cases "strconv_Atoi t") auto
  let ?w = "w\<lparr>stdin := bad @ good # rest,
               stdout := stdout w @ [Txt ''Select todo: '', Txt ''Error reading id: '',
                                     ErrV e, Txt ''\<newline>'']\<rparr>"
  have "getTodoId w = getTodoId ?w"
    using Cons.prems(1) e by (simp add: getTodoId_bad)
  also have "\<dots> = Some (word_of_int n,
               ?w\<lparr>stdin := rest,
                  stdout := stdout ?w @ retry_output bad @ [Txt ''Select todo: '']\<rparr>)"
    using Cons.prems by (intro Cons.IH) simp_all
  finally show ?case
    using e by (simp add: retry_output_def)
qed

text \<open>
  C3, as the code has it. For every id-taking command (complete, uncomplete, delete,
  edit) the id is read by \<open>getTodoId\<close>. A token that does not parse as an integer makes
  it print an error and prompt \<open>Select todo: \<close> again; it returns the id of the first
  token that parses, and the command goes on with it: the command behaves as if it had
  been started at that token, after the error lines. A parse failure does not abort the
  command.
\<close>

theorem id_prompt_retries:
  assumes "stdin w = bad @ good # rest"
    and "\<forall>t \<in> set bad. isl (strconv_Atoi t)"
    and "strconv_Atoi good = Inr n"
  shows "getTodoId w =
           Some (word_of_int n,
                 w\<lparr>stdin := rest,
                    stdout := stdout w @ retry_output bad @ [Txt ''Select todo: '']\<rparr>) \<and>
         changeTodoItemState c w =
           changeTodoItemState c (w\<lparr>stdin := good # rest, stdout := stdout w @ retry_output bad\<rparr>) \<and>
         deleteTodo w =
           deleteTodo (w\<lparr>stdin := good # rest, stdout := stdout w @ retry_output bad\<rparr>) \<and>
         editTodo w =
           editTodo (w\<lparr>stdin := good # rest, stdout := stdout w @ retry_output bad\<rparr>)"
proof -
  let ?w' = "w\<lparr>stdin := good # rest, stdout := stdout w @ retry_output bad\<rparr>"
  have a: "getTodoId w =
           Some (word_of_int n,
                 w\<lparr>stdin := rest,
                    stdout := stdout w @ retry_output bad @ [Txt ''Select todo: '']\<rparr>)"
    using assms by (rule getTodoId_retries)
  have "getTodoId ?w' =
           Some (word_of_int n,
                 ?w'\<lparr>stdin := rest, stdout := stdout ?w' @ [Txt ''Select todo: '']\<rparr>)"
    using assms(3) by (intro getTodoId_good) simp_all
  with a have b: "getTodoId w = getTodoId ?w'" by simp
  show ?thesis
    using a b by (simp add: changeTodoItemState_def deleteTodo_def editTodo_def)
qed

theorem id_prompt_retries_witness:
  "isl (strconv_Atoi ''abc'') \<and> isl (strconv_Atoi '''') \<and>
   strconv_Atoi ''7'' = Inr 7 \<and>
   getTodoId \<lparr>getwd_ok = True, todos_dir = Some [], stdin = [''abc'', '''', ''7'', ''x''],
              stdout = [], rand_src = []\<rparr>
     = Some (7, \<lparr>getwd_ok = True, todos_dir = Some [], stdin = [''x''],
                 stdout = [Txt ''Select todo: '', Txt ''Error reading id: '',
                           ErrV (ErrSyntax ''abc''), Txt ''\<newline>'',
                           Txt ''Select todo: '', Txt ''Error reading id: '',
                           ErrV (ErrSyntax ''''), Txt ''\<newline>'',
                           Txt ''Select todo: ''],
                 rand_src = []\<rparr>)"
proof -
  let ?w = "\<lparr>getwd_ok = True, todos_dir = Some [], stdin = [''abc'', '''', ''7'', ''x''],
              stdout = [], rand_src = []\<rparr>"
  have i: "stdin ?w = [''abc'', ''''] @ ''7'' # [''x'']" by simp
  have b: "\<forall>t \<in> set [''abc'', '''']. isl (strconv_Atoi t)" by code_simp
  have g: "strconv_Atoi ''7'' = Inr 7" by code_simp
  have e1: "strconv_Atoi ''abc'' = Inl (ErrSyntax ''abc'')" by code_simp
  have e2: "strconv_Atoi '''' = Inl (ErrSyntax '''')" by code_simp
  from id_prompt_retries[OF i b g] b g show ?thesis
    by (simp add: retry_output_def e1 e2)
qed

text \<open>
  The first token does not parse, the prompt comes a second time, and the command
  completes Todo 7 with the second token.
\<close>

theorem id_prompt_abort_counterexample:
  "changeTodoItemState True
      \<lparr>getwd_ok = True,
       todos_dir = Some [(''7'', RegFile True (0 # bytes_of_string ''a''))],
       stdin = [''abc'', ''7''], stdout = [], rand_src = []\<rparr>
   = Some (Ret ()
      \<lparr>getwd_ok = True,
       todos_dir = Some [(''7'', RegFile True (1 # bytes_of_string ''a''))],
       stdin = [],
       stdout = [Txt ''Select todo: '', Txt ''Error reading id: '', ErrV (ErrSyntax ''abc''),
                 Txt ''\<newline>'', Txt ''Select todo: '', Txt ''Todo updated\<newline>''],
       rand_src = []\<rparr>)"
  by code_simp

lemma ParseUint_loop_bounds:
  "ParseUint_loop s0 s n = Inr m \<Longrightarrow> 0 \<le> n \<Longrightarrow> n < 2 ^ 64 \<Longrightarrow> 0 \<le> m \<and> m < 2 ^ 64"
proof (induction s arbitrary: n)
  case Nil
  then show ?case by simp
next
  case (Cons c cs)
  from Cons.prems(1) have d: "isDigit c"
    by (simp split: if_splits)
  then have dv: "0 \<le> digitVal c"
    by (simp add: isDigit_def digitVal_def)
  let ?n1 = "n * 10 + digitVal c"
  from Cons.prems(1) d have lt: "?n1 < 2 ^ 64" and run: "ParseUint_loop s0 cs ?n1 = Inr m"
    by (simp_all add: Let_def split: if_splits)
  have "0 \<le> ?n1" using Cons.prems(2) dv by simp
  from Cons.IH[OF run this lt] show ?case .
qed

lemma ParseUint_loop_nonneg: "ParseUint_loop s0 s 0 = Inr m \<Longrightarrow> 0 \<le> m"
  using ParseUint_loop_bounds[of s0 s 0 m] by simp

lemma strconv_Atoi_range:
  assumes "strconv_Atoi t = Inr n"
  shows "- (2 ^ 63) \<le> n \<and> n < 2 ^ 63"
  using assms
  by (auto simp: strconv_Atoi_def Let_def simp del: ParseUint_loop.simps
           split: list.splits if_splits sum.splits dest!: ParseUint_loop_nonneg)

lemma uint_negative:
  assumes "- (2 ^ 63) \<le> n" and "n < 0"
  shows "uint (word_of_int n :: 64 word) = 2 ^ 64 + n"
proof -
  have "uint (word_of_int n :: 64 word) = n mod 2 ^ 64"
    by (simp add: uint_word_of_int take_bit_eq_mod)
  also have "\<dots> = (n + 2 ^ 64) mod 2 ^ 64" by simp
  also have "\<dots> = n + 2 ^ 64" using assms by (intro mod_pos_pos_trivial) simp_all
  finally show ?thesis by simp
qed

text \<open>
  C10. For every token that parses as a negative integer \<open>n\<close>, \<open>getTodoId\<close> reports no
  error: after one prompt it returns the conversion of \<open>n\<close> to \<open>TODOId\<close>, whose unsigned
  value is \<open>2^64 + n\<close>.
\<close>

theorem negative_token_wraps:
  assumes "stdin w = t # ts" and "strconv_Atoi t = Inr n" and "n < 0"
  shows "\<exists>i. getTodoId w = Some (i, w\<lparr>stdin := ts, stdout := stdout w @ [Txt ''Select todo: '']\<rparr>)
             \<and> uint i = 2 ^ 64 + n"
  using getTodoId_good[OF assms(1,2)] uint_negative[of n] strconv_Atoi_range[OF assms(2)] assms(3)
  by simp

theorem negative_token_wraps_witness:
  "strconv_Atoi ''-5'' = Inr (- 5) \<and>
   (\<exists>i. getTodoId \<lparr>getwd_ok = True, todos_dir = Some [], stdin = [''-5''], stdout = [],
                    rand_src = []\<rparr>
          = Some (i, \<lparr>getwd_ok = True, todos_dir = Some [], stdin = [],
                      stdout = [Txt ''Select todo: ''], rand_src = []\<rparr>)
        \<and> uint i = 18446744073709551611)"
proof -
  let ?w = "\<lparr>getwd_ok = True, todos_dir = Some [], stdin = [''-5''], stdout = [],
                    rand_src = []\<rparr>"
  have i: "stdin ?w = ''-5'' # []" by simp
  have a: "strconv_Atoi ''-5'' = Inr (- 5)" by code_simp
  have n: "(- 5 :: int) < 0" by simp
  from negative_token_wraps[OF i a n] a show ?thesis by simp
qed

subsection \<open>The menu and the switch\<close>

text \<open>
  C4. The help menu announces action 6 as "List completed TODOs" and action 7 as "List
  uncompleted TODOs". The switch calls \<open>listTodos(true, false)\<close> for 6 and
  \<open>listTodos(false, true)\<close> for 7, the first flag being \<open>includeUncomplete\<close>: with the
  completed Todo 1 and the uncompleted Todo 2 stored, action 6 lists the uncompleted
  one and action 7 the completed one.
\<close>

theorem menu_6_7_swapped:
  "main_switch 6
      \<lparr>getwd_ok = True,
       todos_dir = Some [(''1'', RegFile True (1 # bytes_of_string ''a'')),
                         (''2'', RegFile True (0 # bytes_of_string ''b''))],
       stdin = [], stdout = [], rand_src = []\<rparr>
   = Some (Ret ()
      \<lparr>getwd_ok = True,
       todos_dir = Some [(''1'', RegFile True (1 # bytes_of_string ''a'')),
                         (''2'', RegFile True (0 # bytes_of_string ''b''))],
       stdin = [],
       stdout = [Txt ''1 uncompleted todos:\<newline>'', Txt (''2'' @ [CHR 0x09] @ ''b\<newline>'')],
       rand_src = []\<rparr>)
   \<and> main_switch 7
      \<lparr>getwd_ok = True,
       todos_dir = Some [(''1'', RegFile True (1 # bytes_of_string ''a'')),
                         (''2'', RegFile True (0 # bytes_of_string ''b''))],
       stdin = [], stdout = [], rand_src = []\<rparr>
   = Some (Ret ()
      \<lparr>getwd_ok = True,
       todos_dir = Some [(''1'', RegFile True (1 # bytes_of_string ''a'')),
                         (''2'', RegFile True (0 # bytes_of_string ''b''))],
       stdin = [],
       stdout = [Txt ''1 completed todos:\<newline>'', Txt (''1'' @ [CHR 0x09] @ ''a\<newline>'')],
       rand_src = []\<rparr>)"
  by code_simp

subsection \<open>Enumerating the directory\<close>

text \<open>
  When every load that an entry triggers returns, the result is made of the Todos of the
  entries that are no directory, have an all-digit name that parses, and load, in the
  order of the sorted directory.
\<close>

lemma loadAllTodos_loop_filters:
  assumes "getwd_ok w" and "list_all (entry_returns w) es"
  shows "loadAllTodos_loop es acc w = Some (Ret (acc @ List.map_filter (entry_todo w) es) w)"
  using assms(2)
proof (induction es arbitrary: acc)
  case Nil
  then show ?case by (simp add: List.map_filter_simps)
next
  case (Cons entry es)
  then have ih: "\<And>acc. loadAllTodos_loop es acc w
                   = Some (Ret (acc @ List.map_filter (entry_todo w) es) w)"
    by simp
  define et where "et = entry_todo w entry"
  have mf: "List.map_filter (entry_todo w) (entry # es)
              = (case et of None \<Rightarrow> [] | Some t \<Rightarrow> [t]) @ List.map_filter (entry_todo w) es"
    by (simp add: List.map_filter_simps et_def split: option.splits)
  have et: "et =
     (if entry_IsDir entry then None
      else if \<not> regexp_MatchString_digits (entry_Name entry) then None
      else (case strconv_Atoi (entry_Name entry) of
              Inl err \<Rightarrow> None
            | Inr idInt \<Rightarrow>
                (case LoadTodo (word_of_int idInt) w of
                   Some (Ret (Inr todo) w1) \<Rightarrow> Some todo
                 | _ \<Rightarrow> None)))"
    by (simp add: et_def entry_todo_def)
  show ?case
  proof (cases "entry_IsDir entry \<or> \<not> regexp_MatchString_digits (entry_Name entry)")
    case True
    then show ?thesis
      unfolding mf by (auto simp: ih et)
  next
    case False
    show ?thesis
    proof (cases "strconv_Atoi (entry_Name entry)")
      case (Inl err)
      with False show ?thesis
        unfolding mf by (simp add: ih et)
    next
      case (Inr idInt)
      with False Cons.prems obtain r where r: "LoadTodo (word_of_int idInt) w = Some r"
        by (auto simp: entry_returns_def)
      from LoadTodo_same_world[OF assms(1) r] obtain x where x: "r = Ret x w" by blast
      show ?thesis
        using False Inr r x
        unfolding mf by (cases x) (simp_all add: ih et)
    qed
  qed
qed

lemma loadAllTodos_filters:
  assumes "getwd_ok w" and "todos_dir w = Some es"
    and "list_all (entry_returns w) es"
  shows "loadAllTodos w = Some (Ret (List.map_filter (entry_todo w) (sort_key fst es)) w)"
proof -
  have "list_all (entry_returns w) (sort_key fst es)"
    using assms(3) by (simp add: list_all_iff)
  from loadAllTodos_loop_filters[OF assms(1) this, of "[]"] show ?thesis
    using assms(1,2)
    by (simp add: loadAllTodos_def getDirPath_def os_Getwd_def path_Join_def os_ReadDir_def)
qed

text \<open>The directory of the specification's example.\<close>

lemma loadAllTodos_example:
  "loadAllTodos
      \<lparr>getwd_ok = True,
       todos_dir = Some [(''abc'', RegFile True (1 # bytes_of_string ''x'')),
                         (''7'', SubDir True),
                         (''3.txt'', RegFile True (1 # bytes_of_string ''y'')),
                         (''3'', RegFile True (0 # bytes_of_string ''z''))],
       stdin = [], stdout = [], rand_src = []\<rparr>
   = Some (Ret [\<lparr>todo_id = 3, completed = False, title = ''z''\<rparr>]
      \<lparr>getwd_ok = True,
       todos_dir = Some [(''abc'', RegFile True (1 # bytes_of_string ''x'')),
                         (''7'', SubDir True),
                         (''3.txt'', RegFile True (1 # bytes_of_string ''y'')),
                         (''3'', RegFile True (0 # bytes_of_string ''z''))],
       stdin = [], stdout = [], rand_src = []\<rparr>)"
  by code_simp

text \<open>
  C6. \<open>loadAllTodos\<close> does not return in every directory state. With a regular file
  \<open>007\<close> and a sub-directory \<open>7\<close>, the entry \<open>007\<close> passes the filters and parses to
  the id 7; \<open>LoadTodo(7)\<close> opens \<open>todos/7\<close>, a directory, and its read loop never sees
  \<open>io.EOF\<close>.
\<close>

theorem loadAllTodos_hangs_on_directory:
  "loadAllTodos
      \<lparr>getwd_ok = True,
       todos_dir = Some [(''007'', RegFile True (0 # bytes_of_string ''x'')),
                         (''7'', SubDir True)],
       stdin = [], stdout = [], rand_src = []\<rparr>
   = None"
proof -
  let ?w = "\<lparr>getwd_ok = True,
       todos_dir = Some [(''007'', RegFile True (0 # bytes_of_string ''x'')),
                         (''7'', SubDir True)],
       stdin = [], stdout = [], rand_src = []\<rparr>"
  have d: "getDirPath ?w = Ret [''todos''] ?w" by code_simp
  have rd: "os_ReadDir [''todos''] ?w =
              Inr [(''007'', RegFile True (0 # bytes_of_string ''x'')), (''7'', SubDir True)]"
    by code_simp
  have m: "regexp_MatchString_digits ''007''" by code_simp
  have a: "strconv_Atoi ''007'' = Inr 7" by code_simp
  have p: "getFilePath 7 ?w = Ret [''todos'', ''7''] ?w" by code_simp
  have op: "os_Open [''todos'', ''7''] ?w = Inr DirH" by code_simp
  have ld: "LoadTodo 7 ?w = None"
    by (simp add: LoadTodo_def p op decode_DirH)
  show ?thesis
    by (simp add: loadAllTodos_def d rd entry_IsDir_def entry_Name_def m a ld)
qed

end
